theory Spec2Isabelle
  imports Main
begin

section \<open>Exceptions\<close>

text \<open>
  The failures that parlai/utils/testing.py raises or lets through. An exception is a
  value; a call that may raise returns \<open>exn + 'v\<close> with \<open>Inl\<close> for the raise.
  \<open>AssertionError\<close> carries its message, \<open>OtherError\<close> stands for every class the
  module does not name itself.
\<close>

datatype exn =
    AssertionError string
  | TimeoutError
  | OverflowError
  | OtherError string

section \<open>The retry decorator\<close>

text \<open>
  \<^verbatim>\<open>
  class retry(object):
      def __init__(self, ntries=3, log_retry=False):
          self.ntries = ntries
          self.log_retry = log_retry
  \<close>
  Python integers are unbounded, so \<open>ntries\<close> is an \<open>int\<close>; nothing checks its sign.
\<close>

record retry =
  ntries :: int
  log_retry :: bool

definition retry_init :: retry where
  "retry_init = \<lparr>ntries = 3, log_retry = False\<rparr>"

text \<open>
  The test instance handed to the wrapped function. The only attribute the wrapper reads
  is \<open>failureException\<close>, the class named in its \<open>except\<close> clause; a class is
  modelled by its instance test. \<open>TestCase\<close> is the default of the unittest library,
  where \<open>failureException = AssertionError\<close>.
\<close>

record testself =
  failureException :: "exn \<Rightarrow> bool"

definition TestCase :: testself where
  "TestCase = \<lparr>failureException = (\<lambda>e. case e of AssertionError m \<Rightarrow> True | _ \<Rightarrow> False)\<rparr>"

text \<open>
  The decorated function is a Python function object: it has a printed form (used in the
  log line) and a call behaviour. A call receives the test instance and the remaining
  arguments, may change the state of the test (\<open>'s\<close>) and returns or raises.
\<close>

record ('a, 's, 'v) testfn =
  repr :: string
  call :: "testself \<Rightarrow> 'a \<Rightarrow> 's \<Rightarrow> (exn + 'v) \<times> 's"

text \<open>
  What the wrapper can touch: the state of the test and the lines it has passed to
  \<open>logging.debug\<close>.
\<close>

record 's world =
  store :: 's
  debug_log :: "string list"

definition logging_debug :: "string \<Rightarrow> 's world \<Rightarrow> 's world" where
  "logging_debug line w = w\<lparr>debug_log := debug_log w @ [line]\<rparr>"

definition invoke :: "('a, 's, 'v) testfn \<Rightarrow> testself \<Rightarrow> 'a \<Rightarrow> 's world \<Rightarrow> (exn + 'v) \<times> 's world" where
  "invoke f ts args w = (case call f ts args (store w) of (res, s') \<Rightarrow> (res, w\<lparr>store := s'\<rparr>))"

text \<open>
  \<^verbatim>\<open>
  def _wrapper(testself, *args, **kwargs):
      for _ in range(self.ntries - 1):
          try:
              return testfn(testself, *args, **kwargs)
          except testself.failureException:
              if self.log_retry:
                  logging.debug("Retrying {}".format(testfn))
      # last time, actually throw any errors there may be
      return testfn(testself, *args, **kwargs)
  \<close>
  \<open>retry_loop\<close> is the \<open>for\<close> loop with \<open>n\<close> iterations left, followed by the
  last call. \<open>range(m)\<close> has \<open>nat m\<close> elements: none when \<open>m \<le> 0\<close>.
\<close>

fun retry_loop ::
  "retry \<Rightarrow> ('a, 's, 'v) testfn \<Rightarrow> testself \<Rightarrow> 'a \<Rightarrow> nat \<Rightarrow> 's world \<Rightarrow> (exn + 'v) \<times> 's world"
where
  "retry_loop r f ts args 0 w = invoke f ts args w"
| "retry_loop r f ts args (Suc n) w =
     (case invoke f ts args w of
        (Inr v, w') \<Rightarrow> (Inr v, w')
      | (Inl e, w') \<Rightarrow>
          if failureException ts e
          then retry_loop r f ts args n
                 (if log_retry r then logging_debug (''Retrying '' @ repr f) w' else w')
          else (Inl e, w'))"

definition retry_wrapper ::
  "retry \<Rightarrow> ('a, 's, 'v) testfn \<Rightarrow> testself \<Rightarrow> 'a \<Rightarrow> 's world \<Rightarrow> (exn + 'v) \<times> 's world"
where
  "retry_wrapper r f ts args w = retry_loop r f ts args (nat (ntries r - 1)) w"

subsection \<open>Describing a run of the decorated function\<close>

text \<open>
  \<open>state_after f ts args n s\<close> is the state of the test after \<open>n\<close> calls in a row
  with the same arguments, started in \<open>s\<close>.
\<close>

fun state_after :: "('a, 's, 'v) testfn \<Rightarrow> testself \<Rightarrow> 'a \<Rightarrow> nat \<Rightarrow> 's \<Rightarrow> 's" where
  "state_after f ts args 0 s = s"
| "state_after f ts args (Suc n) s = state_after f ts args n (snd (call f ts args s))"

text \<open>The outcome of call number \<open>n + 1\<close> of such a run.\<close>

definition nth_outcome :: "('a, 's, 'v) testfn \<Rightarrow> testself \<Rightarrow> 'a \<Rightarrow> nat \<Rightarrow> 's \<Rightarrow> exn + 'v" where
  "nth_outcome f ts args n s = fst (call f ts args (state_after f ts args n s))"

text \<open>
  \<open>fails_first f ts args k s\<close>: each of the next \<open>k\<close> calls raises an instance of
  \<open>testself.failureException\<close>.
\<close>

fun fails_first :: "('a, 's, 'v) testfn \<Rightarrow> testself \<Rightarrow> 'a \<Rightarrow> nat \<Rightarrow> 's \<Rightarrow> bool" where
  "fails_first f ts args 0 s = True"
| "fails_first f ts args (Suc k) s =
     (case call f ts args s of
        (Inl e, s') \<Rightarrow> failureException ts e \<and> fails_first f ts args k s'
      | (Inr v, s') \<Rightarrow> False)"

text \<open>
  A counter in front of the state of the test records how often the function has been
  called; \<open>counted f\<close> is \<open>f\<close> with that bookkeeping and nothing else changed.
\<close>

definition counted :: "('a, 's, 'v) testfn \<Rightarrow> ('a, nat \<times> 's, 'v) testfn" where
  "counted f =
     \<lparr>repr = repr f,
      call = (\<lambda>ts args (c, s). case call f ts args s of (res, s') \<Rightarrow> (res, (Suc c, s')))\<rparr>"

definition calls :: "(exn + 'v) \<times> (nat \<times> 's) world \<Rightarrow> nat" where
  "calls out = fst (store (snd out))"

text \<open>The lines the wrapper logs over \<open>j\<close> retries.\<close>

definition retry_lines :: "retry \<Rightarrow> ('a, 's, 'v) testfn \<Rightarrow> nat \<Rightarrow> string list" where
  "retry_lines r f j = (if log_retry r then replicate j (''Retrying '' @ repr f) else [])"

text \<open>
  \<open>stops_at f ts args k n s\<close>: with \<open>n\<close> loop iterations available, call number
  \<open>k + 1\<close> is the one whose outcome leaves the wrapper: it is the call after the loop, or
  it returns, or it raises something the \<open>except\<close> clause does not match.
\<close>

definition stops_at :: "('a, 's, 'v) testfn \<Rightarrow> testself \<Rightarrow> 'a \<Rightarrow> nat \<Rightarrow> nat \<Rightarrow> 's \<Rightarrow> bool" where
  "stops_at f ts args k n s =
     (k = n \<or> (case nth_outcome f ts args k s of Inr v \<Rightarrow> True | Inl e \<Rightarrow> \<not> failureException ts e))"

subsection \<open>Test doubles\<close>

text \<open>
  \<open>flaky k v\<close> counts its calls in the state of the test, raises \<open>AssertionError\<close> on
  the first \<open>k\<close> of them and returns \<open>v\<close> afterwards; \<open>always_other\<close> raises a
  failure of another class on every call.
\<close>

definition flaky :: "nat \<Rightarrow> 'v \<Rightarrow> (unit, nat, 'v) testfn" where
  "flaky k v =
     \<lparr>repr = ''<function test_flaky>'',
      call = (\<lambda>ts args n. (if n < k then Inl (AssertionError ''flaky'') else Inr v, Suc n))\<rparr>"

definition always_other :: "(unit, unit, 'v) testfn" where
  "always_other =
     \<lparr>repr = ''<function test_broken>'',
      call = (\<lambda>ts args s. (Inl (OtherError ''boom''), s))\<rparr>"

section \<open>The timeout context manager\<close>

subsection \<open>The signal facility\<close>

text \<open>
  The guard works through two calls of Python's \<open>signal\<close> module, which the module
  imports and does not define; they are modelled after the library documentation.
  The state they act on is the disposition of \<open>SIGALRM\<close> and the process alarm.
  A disposition is \<open>SIG_DFL\<close> (the default action, which ends the process),
  \<open>SIG_IGN\<close> (the signal is dropped) or a Python function, which either returns or
  raises; \<open>alarm_left\<close> is the number of seconds until the alarm fires, \<open>None\<close> when no
  alarm is scheduled.
\<close>

datatype sig_handler = SIG_DFL | SIG_IGN | PyHandler "exn option"

record sigstate =
  sigalrm :: sig_handler
  alarm_left :: "nat option"

text \<open>
  \<open>signal.signal(signal.SIGALRM, h)\<close> replaces the disposition. It returns the previous
  one, which timeout never keeps.
\<close>

definition signal_signal :: "sig_handler \<Rightarrow> sigstate \<Rightarrow> sigstate" where
  "signal_signal h s = s\<lparr>sigalrm := h\<rparr>"

text \<open>
  \<open>signal.alarm(seconds)\<close> replaces the scheduled alarm; with \<open>seconds = 0\<close> it
  schedules none and cancels the one there is. The argument is converted to a C
  \<open>int\<close> (\<open>OverflowError\<close> outside 32 bits) and passed on as an unsigned value.
\<close>

definition signal_alarm :: "int \<Rightarrow> sigstate \<Rightarrow> exn + sigstate" where
  "signal_alarm seconds s =
     (if seconds < - 2147483648 \<or> 2147483647 < seconds then Inl OverflowError
      else let t = nat (seconds mod 4294967296)
           in Inr (s\<lparr>alarm_left := (if t = 0 then None else Some t)\<rparr>))"

subsection \<open>The guarded block\<close>

text \<open>
  The body of the \<open>with\<close> statement is the caller's code. What the guard can observe of
  it: how many seconds it needs (\<open>duration\<close>), how it ends when nothing interrupts it
  (\<open>outcome\<close>), and how it ends when an exception is raised inside it by a signal
  handler (\<open>on_raise\<close>: \<open>Inl\<close> for a block that catches nothing). The block leaves the
  signal facility alone; nested guards are outside this model.

  \<open>run_block\<close> lets the block run under a signal state. The block finishes untouched
  when no alarm is scheduled or when it needs less time than is left; otherwise the alarm
  fires first and the disposition of \<open>SIGALRM\<close> decides. \<open>None\<close> is the end of the
  process under \<open>SIG_DFL\<close>.
\<close>

record 'v block =
  duration :: nat
  outcome :: "exn + 'v"
  on_raise :: "exn \<Rightarrow> exn + 'v"

definition run_block :: "'v block \<Rightarrow> sigstate \<Rightarrow> ((exn + 'v) \<times> sigstate) option" where
  "run_block b s =
     (case alarm_left s of
        None \<Rightarrow> Some (outcome b, s)
      | Some t \<Rightarrow>
          if duration b < t then Some (outcome b, s\<lparr>alarm_left := Some (t - duration b)\<rparr>)
          else (case sigalrm s of
                  SIG_DFL \<Rightarrow> None
                | SIG_IGN \<Rightarrow> Some (outcome b, s\<lparr>alarm_left := None\<rparr>)
                | PyHandler None \<Rightarrow> Some (outcome b, s\<lparr>alarm_left := None\<rparr>)
                | PyHandler (Some e) \<Rightarrow> Some (on_raise b e, s\<lparr>alarm_left := None\<rparr>)))"

subsection \<open>timeout\<close>

text \<open>
  \<^verbatim>\<open>
  @contextlib.contextmanager
  def timeout(time: int = 30):
      assert time >= 0, 'Time specified in timeout must be nonnegative.'

      def _handler(signum, frame):
          raise TimeoutError

      signal.signal(signal.SIGALRM, _handler)
      signal.alarm(time)

      try:
          yield
      except TimeoutError as e:
          raise e
      finally:
          signal.signal(signal.SIGALRM, signal.SIG_IGN)
  \<close>
  \<open>timeout_handler\<close> is \<open>_handler\<close>. \<open>timeout_enter\<close> is the generator up to its
  \<open>yield\<close>, which runs when the \<open>with\<close> statement is entered; a failure there leaves
  the \<open>with\<close> statement before the \<open>try\<close> is reached. \<open>timeout_exit\<close> is the
  \<open>except\<close> and \<open>finally\<close> part, entered with the way the block ended.
  \<open>timeout\<close> is the whole \<open>with\<close> statement around a block.
\<close>

definition timeout_handler :: sig_handler where
  "timeout_handler = PyHandler (Some TimeoutError)"

definition timeout_enter :: "int \<Rightarrow> sigstate \<Rightarrow> (exn + unit) \<times> sigstate" where
  "timeout_enter time s =
     (if \<not> 0 \<le> time
      then (Inl (AssertionError ''Time specified in timeout must be nonnegative.''), s)
      else let s1 = signal_signal timeout_handler s
           in (case signal_alarm time s1 of
                 Inl e \<Rightarrow> (Inl e, s1)
               | Inr s2 \<Rightarrow> (Inr (), s2)))"

definition timeout_exit :: "exn + 'v \<Rightarrow> sigstate \<Rightarrow> (exn + 'v) \<times> sigstate" where
  "timeout_exit res s =
     ((case res of
         Inr v \<Rightarrow> Inr v
       | Inl e \<Rightarrow> (case e of TimeoutError \<Rightarrow> Inl e | _ \<Rightarrow> Inl e)),
      signal_signal SIG_IGN s)"

definition timeout :: "int \<Rightarrow> 'v block \<Rightarrow> sigstate \<Rightarrow> ((exn + 'v) \<times> sigstate) option" where
  "timeout time b s =
     (case timeout_enter time s of
        (Inl e, s1) \<Rightarrow> Some (Inl e, s1)
      | (Inr u, s2) \<Rightarrow>
          (case run_block b s2 of
             None \<Rightarrow> None
           | Some (res, s3) \<Rightarrow> Some (timeout_exit res s3)))"

text \<open>
  \<open>sleep n\<close> is the block \<open>time.sleep(n)\<close>; \<open>fresh_signals\<close> is the signal state of a
  process that has not touched \<open>SIGALRM\<close>.
\<close>

definition sleep :: "nat \<Rightarrow> unit block" where
  "sleep n = \<lparr>duration = n, outcome = Inr (), on_raise = Inl\<rparr>"

definition fresh_signals :: sigstate where
  "fresh_signals = \<lparr>sigalrm = SIG_DFL, alarm_left = None\<rparr>"

section \<open>Properties of retry\<close>

subsection \<open>Auxiliary facts\<close>

lemma fails_first_mono:
  "fails_first f ts args k s \<Longrightarrow> j \<le> k \<Longrightarrow> fails_first f ts args j s"
proof (induction j arbitrary: k s)
  case 0
  then show ?case by simp
next
  case (Suc j)
  then obtain k' where k: "k = Suc k'" and le: "j \<le> k'" by (cases k) auto
  from Suc.prems(1) k Suc.IH [OF _ le] show ?case
    by (auto split: prod.splits sum.splits)
qed

lemma fails_first_nth:
  "fails_first f ts args k s \<Longrightarrow> i < k \<Longrightarrow>
     \<exists>e. nth_outcome f ts args i s = Inl e \<and> failureException ts e"
proof (induction i arbitrary: k s)
  case 0
  then obtain k' where "k = Suc k'" by (cases k) auto
  with "0.prems"(1) show ?case
    by (auto simp: nth_outcome_def split: prod.splits sum.splits)
next
  case (Suc i)
  then obtain k' where k: "k = Suc k'" and lt: "i < k'" by (cases k) auto
  from Suc.prems(1) k have "fails_first f ts args k' (snd (call f ts args s))"
    by (auto split: prod.splits sum.splits)
  from Suc.IH [OF this lt] show ?case
    by (simp add: nth_outcome_def)
qed

lemma retry_lines_Suc:
  "retry_lines r f (Suc j) = (if log_retry r then [''Retrying '' @ repr f] else []) @ retry_lines r f j"
  by (simp add: retry_lines_def)

lemma retry_loop_stops:
  "fails_first f ts args k (store w) \<Longrightarrow> k \<le> n \<Longrightarrow> stops_at f ts args k n (store w) \<Longrightarrow>
   retry_loop r f ts args n w =
     (nth_outcome f ts args k (store w),
      \<lparr>store = state_after f ts args (Suc k) (store w),
       debug_log = debug_log w @ retry_lines r f k\<rparr>)"
proof (induction k arbitrary: n w)
  case 0
  show ?case
  proof (cases n)
    case 0
    then show ?thesis
      by (simp add: invoke_def nth_outcome_def retry_lines_def split: prod.splits)
  next
    case (Suc m)
    with "0.prems" show ?thesis
      by (auto simp: invoke_def nth_outcome_def retry_lines_def stops_at_def split: prod.splits sum.splits)
  qed
next
  case (Suc k)
  then obtain m where n: "n = Suc m" and le: "k \<le> m" by (cases n) auto
  obtain res s' where c: "call f ts args (store w) = (res, s')" by (cases "call f ts args (store w)")
  with Suc.prems(1) obtain e where res: "res = Inl e" and fe: "failureException ts e"
    and ff: "fails_first f ts args k s'"
    by (auto split: sum.splits)
  let ?w' = "if log_retry r then logging_debug (''Retrying '' @ repr f) (w\<lparr>store := s'\<rparr>) else w\<lparr>store := s'\<rparr>"
  have st: "store ?w' = s'" by (simp add: logging_debug_def)
  from Suc.prems(3) n have "stops_at f ts args k m s'"
    by (simp add: stops_at_def nth_outcome_def c)
  with Suc.IH [of ?w' m] ff le st
  have "retry_loop r f ts args m ?w' =
     (nth_outcome f ts args k s',
      \<lparr>store = state_after f ts args (Suc k) s', debug_log = debug_log ?w' @ retry_lines r f k\<rparr>)"
    by simp
  then show ?case
    using c res fe n
    by (simp add: invoke_def nth_outcome_def retry_lines_Suc logging_debug_def)
qed

lemma call_counted:
  "call (counted f) ts args (c, s) = (fst (call f ts args s), (Suc c, snd (call f ts args s)))"
  by (simp add: counted_def split: prod.splits)

lemma state_after_counted:
  "state_after (counted f) ts args n (c, s) = (c + n, state_after f ts args n s)"
  by (induction n arbitrary: c s) (simp_all add: call_counted)

lemma nth_outcome_counted:
  "nth_outcome (counted f) ts args n (c, s) = nth_outcome f ts args n s"
  by (simp add: nth_outcome_def state_after_counted call_counted)

lemma fails_first_counted:
  "fails_first (counted f) ts args k (c, s) = fails_first f ts args k s"
  by (induction k arbitrary: c s) (auto simp: call_counted split: prod.splits sum.splits)

lemma stop_exists:
  "\<exists>j\<le>n. fails_first f ts args j s \<and> stops_at f ts args j n s"
proof (induction n arbitrary: s)
  case 0
  show ?case by (simp add: stops_at_def)
next
  case (Suc n)
  obtain res s' where c: "call f ts args s = (res, s')" by (cases "call f ts args s")
  show ?case
  proof (cases "\<exists>e. res = Inl e \<and> failureException ts e")
    case True
    from Suc.IH [of s'] obtain j where j: "j \<le> n" "fails_first f ts args j s'" "stops_at f ts args j n s'"
      by blast
    with True c have "fails_first f ts args (Suc j) s \<and> stops_at f ts args (Suc j) (Suc n) s"
      by (auto simp: stops_at_def nth_outcome_def)
    with j(1) show ?thesis by (intro exI [of _ "Suc j"]) simp
  next
    case False
    with c have "stops_at f ts args 0 (Suc n) s"
      by (cases res) (auto simp: stops_at_def nth_outcome_def)
    then show ?thesis by (intro exI [of _ 0]) simp
  qed
qed

subsection \<open>Bounded retry\<close>

text \<open>
  C1. Let the decorated function raise the designated failure on its first \<open>k\<close> calls and
  return \<open>v\<close> on the next one, and let \<open>ntries\<close> be at least 1. If \<open>k < ntries\<close> the
  wrapped call returns \<open>v\<close> after exactly \<open>k + 1\<close> calls; if \<open>k \<ge> ntries\<close> it raises
  the designated failure after exactly \<open>ntries\<close> calls. With \<open>ntries = 1\<close> the wrapped
  call is a single call of the function, nothing caught.
\<close>

theorem retry_fails_k_then_succeeds:
  fixes l :: "string list"
  assumes N: "1 \<le> ntries r"
    and fails: "fails_first f ts args k s"
    and succ: "nth_outcome f ts args k s = Inr v"
  defines "w0 \<equiv> \<lparr>store = (0, s), debug_log = l\<rparr>"
  defines "out \<equiv> retry_wrapper r (counted f) ts args w0"
  shows "(int k < ntries r \<longrightarrow> fst out = Inr v \<and> calls out = k + 1) \<and>
         (ntries r \<le> int k \<longrightarrow>
            (\<exists>e. fst out = Inl e \<and> failureException ts e) \<and> int (calls out) = ntries r) \<and>
         (ntries r = 1 \<longrightarrow> out = invoke (counted f) ts args w0 \<and> calls out = 1)"
proof (intro conjI impI)
  assume lt: "int k < ntries r"
  then have le: "k \<le> nat (ntries r - 1)" by simp
  have ff: "fails_first (counted f) ts args k (store w0)"
    using fails by (simp add: w0_def fails_first_counted)
  have st: "stops_at (counted f) ts args k (nat (ntries r - 1)) (store w0)"
    using succ by (simp add: stops_at_def w0_def nth_outcome_counted)
  have "out =
     (nth_outcome (counted f) ts args k (store w0),
      \<lparr>store = state_after (counted f) ts args (Suc k) (store w0),
       debug_log = debug_log w0 @ retry_lines r (counted f) k\<rparr>)"
    unfolding out_def retry_wrapper_def by (rule retry_loop_stops [OF ff le st])
  then have o: "out = (Inr v, \<lparr>store = (Suc k, state_after f ts args (Suc k) s),
       debug_log = l @ retry_lines r (counted f) k\<rparr>)"
    using succ by (simp only: w0_def world.simps nth_outcome_counted state_after_counted) simp
  show "fst out = Inr v" by (simp add: o)
  show "calls out = k + 1" by (simp add: o calls_def)
next
  assume ge: "ntries r \<le> int k"
  define n where "n = nat (ntries r - 1)"
  from N ge have nk: "n < k" and nN: "int n + 1 = ntries r" by (simp_all add: n_def)
  have "fails_first f ts args n s" using fails nk by (auto intro: fails_first_mono)
  then have "fails_first (counted f) ts args n (store w0)"
    by (simp add: w0_def fails_first_counted)
  moreover have "stops_at (counted f) ts args n n (store w0)" by (simp add: stops_at_def)
  ultimately have "retry_loop r (counted f) ts args n w0 =
     (nth_outcome (counted f) ts args n (store w0),
      \<lparr>store = state_after (counted f) ts args (Suc n) (store w0),
       debug_log = debug_log w0 @ retry_lines r (counted f) n\<rparr>)"
    by (intro retry_loop_stops) simp_all
  then have o: "out = (nth_outcome f ts args n s, \<lparr>store = (Suc n, state_after f ts args (Suc n) s),
       debug_log = l @ retry_lines r (counted f) n\<rparr>)"
    unfolding out_def retry_wrapper_def n_def [symmetric]
    by (simp only: w0_def world.simps nth_outcome_counted state_after_counted) simp
  from fails_first_nth [OF fails nk] o
  show "\<exists>e. fst out = Inl e \<and> failureException ts e" by simp
  show "int (calls out) = ntries r" using nN by (simp add: o calls_def)
next
  assume one: "ntries r = 1"
  then show "out = invoke (counted f) ts args w0"
    by (simp add: out_def retry_wrapper_def)
next
  assume one: "ntries r = 1"
  then show "calls out = 1"
    by (simp add: out_def retry_wrapper_def invoke_def calls_def call_counted w0_def
        split: prod.splits)
qed

theorem retry_fails_k_then_succeeds_witness:
  "fst (retry_wrapper \<lparr>ntries = 3, log_retry = False\<rparr> (counted (flaky 2 ''ok'')) TestCase ()
         \<lparr>store = (0, 0), debug_log = []\<rparr>) = Inr ''ok'' \<and>
   calls (retry_wrapper \<lparr>ntries = 3, log_retry = False\<rparr> (counted (flaky 2 ''ok'')) TestCase ()
         \<lparr>store = (0, 0), debug_log = []\<rparr>) = 3 \<and>
   (\<exists>e. fst (retry_wrapper \<lparr>ntries = 2, log_retry = False\<rparr> (counted (flaky 2 ''ok'')) TestCase ()
         \<lparr>store = (0, 0), debug_log = []\<rparr>) = Inl e \<and> failureException TestCase e) \<and>
   calls (retry_wrapper \<lparr>ntries = 2, log_retry = False\<rparr> (counted (flaky 2 ''ok'')) TestCase ()
         \<lparr>store = (0, 0), debug_log = []\<rparr>) = 2"
proof -
  have h1: "fails_first (flaky 2 ''ok'') TestCase () 2 0"
    by (simp add: numeral_2_eq_2 flaky_def TestCase_def)
  have h2: "nth_outcome (flaky 2 ''ok'') TestCase () 2 0 = Inr ''ok''"
    by (simp add: numeral_2_eq_2 nth_outcome_def flaky_def)
  have a: "(1::int) \<le> ntries \<lparr>ntries = 3, log_retry = False\<rparr>" by simp
  have b: "(1::int) \<le> ntries \<lparr>ntries = 2, log_retry = False\<rparr>" by simp
  from retry_fails_k_then_succeeds [OF a h1 h2, of "[]"]
       retry_fails_k_then_succeeds [OF b h1 h2, of "[]"]
  show ?thesis by simp
qed

subsection \<open>Failures the except clause does not match\<close>

text \<open>
  C5. If the first \<open>j\<close> calls raise the designated failure, call \<open>j + 1\<close> is made
  (it is within the \<open>ntries\<close> attempts, or it is the first call) and it raises a failure
  \<open>e\<close> that \<open>testself.failureException\<close> does not match, then the wrapped call raises
  \<open>e\<close> and the function has been called exactly \<open>j + 1\<close> times: nothing is called after
  the failing attempt. With \<open>j = 0\<close>: a function that raises another kind of failure on
  its first call is called once, whatever \<open>ntries\<close> is.
\<close>

theorem retry_other_failure_propagates:
  fixes l :: "string list"
  assumes fails: "fails_first f ts args j s"
    and made: "j \<le> nat (ntries r - 1)"
    and other: "nth_outcome f ts args j s = Inl e"
    and nomatch: "\<not> failureException ts e"
  defines "out \<equiv> retry_wrapper r (counted f) ts args \<lparr>store = (0, s), debug_log = l\<rparr>"
  shows "fst out = Inl e \<and> calls out = j + 1 \<and>
         snd (store (snd out)) = state_after f ts args (j + 1) s"
proof -
  let ?w0 = "\<lparr>store = (0::nat, s), debug_log = l\<rparr>"
  have ff: "fails_first (counted f) ts args j (store ?w0)"
    using fails by (simp add: fails_first_counted)
  have st: "stops_at (counted f) ts args j (nat (ntries r - 1)) (store ?w0)"
    using other nomatch by (simp add: stops_at_def nth_outcome_counted)
  have "out =
     (nth_outcome (counted f) ts args j (store ?w0),
      \<lparr>store = state_after (counted f) ts args (Suc j) (store ?w0),
       debug_log = debug_log ?w0 @ retry_lines r (counted f) j\<rparr>)"
    unfolding out_def retry_wrapper_def by (rule retry_loop_stops [OF ff made st])
  then have "out = (Inl e, \<lparr>store = (Suc j, state_after f ts args (Suc j) s),
       debug_log = l @ retry_lines r (counted f) j\<rparr>)"
    using other by (simp only: world.simps nth_outcome_counted state_after_counted) simp
  then show ?thesis by (simp add: calls_def)
qed

text \<open>
  The function that always raises \<open>OtherError\<close>, wrapped with \<open>ntries = 5\<close>: one
  call, and \<open>OtherError\<close> reaches the caller.
\<close>

theorem retry_other_failure_propagates_witness:
  "fst (retry_wrapper \<lparr>ntries = 5, log_retry = True\<rparr> (counted always_other) TestCase ()
         \<lparr>store = (0, ()), debug_log = []\<rparr>) = (Inl (OtherError ''boom'') :: exn + unit) \<and>
   calls (retry_wrapper \<lparr>ntries = 5, log_retry = True\<rparr>
            (counted (always_other :: (unit, unit, unit) testfn)) TestCase ()
         \<lparr>store = (0, ()), debug_log = []\<rparr>) = 1"
proof -
  have h1: "fails_first (always_other :: (unit, unit, unit) testfn) TestCase () 0 ()" by simp
  have h2: "0 \<le> nat (ntries \<lparr>ntries = 5, log_retry = True\<rparr> - 1)" by simp
  have h3: "nth_outcome (always_other :: (unit, unit, unit) testfn) TestCase () 0 ()
              = Inl (OtherError ''boom'')"
    by (simp add: nth_outcome_def always_other_def)
  have h4: "\<not> failureException TestCase (OtherError ''boom'')" by (simp add: TestCase_def)
  from retry_other_failure_propagates [OF h1 h2 h3 h4, of "[]"]
  show ?thesis by simp
qed

subsection \<open>What the caller of the wrapped function observes\<close>

text \<open>
  C9. Whatever the function does on its calls, the wrapped call ends with the outcome of
  one call of the function itself, made with the test instance and the arguments the
  wrapper received, namely call number \<open>j + 1\<close> where
  all \<open>j\<close> calls before it raised the designated failure and were retried, and
  call \<open>j + 1\<close> is the one that ends the run: it is the last of the attempts (the
  attempts are exhausted), or it returns, or it raises a failure the \<open>except\<close> clause
  does not match (a failure that is not retried).
  The value or failure the caller sees is the outcome of that call, the state of the test
  is the one after those \<open>j + 1\<close> calls, and the only other effect is the log lines of
  the \<open>j\<close> retries. No failure is produced by the wrapper itself.
\<close>

theorem retry_outcome_is_last_call:
  "\<exists>j\<le>nat (ntries r - 1).
      fails_first f ts args j (store w) \<and>
      stops_at f ts args j (nat (ntries r - 1)) (store w) \<and>
      retry_wrapper r f ts args w =
        (nth_outcome f ts args j (store w),
         \<lparr>store = state_after f ts args (Suc j) (store w),
          debug_log = debug_log w @ retry_lines r f j\<rparr>)"
proof -
  from stop_exists [of "nat (ntries r - 1)" f ts args "store w"]
  obtain j where j: "j \<le> nat (ntries r - 1)" "fails_first f ts args j (store w)"
    "stops_at f ts args j (nat (ntries r - 1)) (store w)" by blast
  from retry_loop_stops [OF j(2) j(1) j(3), of r] j
  show ?thesis unfolding retry_wrapper_def by blast
qed

text \<open>
  \<open>flaky 2\<close> under \<open>ntries = 3\<close> with logging: the run cannot end at the first or the
  second call, which raise the designated failure with attempts left; it ends at the
  third, whose value reaches the caller.
\<close>

theorem retry_outcome_is_last_call_witness:
  "retry_wrapper \<lparr>ntries = 3, log_retry = True\<rparr> (flaky 2 ''ok'') TestCase ()
       \<lparr>store = 0, debug_log = []\<rparr>
     = (Inr ''ok'',
        \<lparr>store = 3,
         debug_log = [''Retrying <function test_flaky>'', ''Retrying <function test_flaky>'']\<rparr>)"
proof -
  let ?r = "\<lparr>ntries = 3, log_retry = True\<rparr>"
  let ?f = "flaky 2 ''ok'' :: (unit, nat, string) testfn"
  let ?w = "\<lparr>store = 0::nat, debug_log = []\<rparr>"
  from retry_outcome_is_last_call [of ?r ?f TestCase "()" ?w]
  obtain j where le: "j \<le> 2"
    and st: "stops_at ?f TestCase () j 2 0"
    and eq: "retry_wrapper ?r ?f TestCase () ?w =
        (nth_outcome ?f TestCase () j 0,
         \<lparr>store = state_after ?f TestCase () (Suc j) 0,
          debug_log = retry_lines ?r ?f j\<rparr>)"
    by auto
  from le have "j = 0 \<or> j = 1 \<or> j = 2" by arith
  then have j2: "j = 2"
    using st
    by (auto simp: stops_at_def nth_outcome_def flaky_def TestCase_def)
  show ?thesis
    unfolding eq j2
    by (simp add: numeral_2_eq_2 numeral_3_eq_3 nth_outcome_def flaky_def retry_lines_def)
qed

subsection \<open>ntries below 1\<close>

text \<open>
  C10. \<open>ntries\<close> is never validated. For every \<open>ntries \<le> 1\<close>, zero and negative
  values included, the loop body never runs: the wrapped call is exactly one call of the
  function, its outcome (a failure too) handed to the caller, the same as with
  \<open>ntries = 1\<close>.
\<close>

theorem retry_ntries_le_1:
  fixes l :: "string list"
  assumes "ntries r \<le> 1"
  shows "retry_wrapper r f ts args w = invoke f ts args w \<and>
         retry_wrapper r f ts args w = retry_wrapper (r\<lparr>ntries := 1\<rparr>) f ts args w \<and>
         calls (retry_wrapper r (counted f) ts args \<lparr>store = (0, s), debug_log = l\<rparr>) = 1"
  using assms
  by (simp add: retry_wrapper_def invoke_def calls_def call_counted split: prod.splits)

text \<open>
  \<open>ntries = - 2\<close> and \<open>ntries = 0\<close> on a function that fails on its first call:
  one call, and the failure is not caught.
\<close>

theorem retry_ntries_le_1_witness:
  "retry_wrapper \<lparr>ntries = - 2, log_retry = False\<rparr> (flaky 1 ''ok'') TestCase ()
       \<lparr>store = 0, debug_log = []\<rparr>
     = (Inl (AssertionError ''flaky''), \<lparr>store = 1, debug_log = []\<rparr>) \<and>
   calls (retry_wrapper \<lparr>ntries = 0, log_retry = False\<rparr> (counted (flaky 1 ''ok'')) TestCase ()
       \<lparr>store = (0, 0), debug_log = []\<rparr>) = 1"
proof -
  have a: "ntries \<lparr>ntries = - 2, log_retry = False\<rparr> \<le> 1" by simp
  have b: "ntries \<lparr>ntries = 0, log_retry = False\<rparr> \<le> 1" by simp
  from retry_ntries_le_1 [OF a, of "flaky 1 ''ok''" TestCase "()" "\<lparr>store = 0, debug_log = []\<rparr>" 0 "[]"]
       retry_ntries_le_1 [OF b, of "flaky 1 ''ok''" TestCase "()" "\<lparr>store = 0, debug_log = []\<rparr>" 0 "[]"]
  show ?thesis by (simp add: invoke_def flaky_def)
qed

section \<open>Properties of timeout\<close>

subsection \<open>Auxiliary facts\<close>

lemma timeout_exit_fst: "fst (timeout_exit res s) = res"
  by (simp add: timeout_exit_def split: sum.splits exn.splits)

lemma timeout_enter_ok:
  "0 \<le> time \<Longrightarrow> time \<le> 2147483647 \<Longrightarrow>
   timeout_enter time s =
     (Inr (), \<lparr>sigalrm = timeout_handler,
               alarm_left = (if time = 0 then None else Some (nat time))\<rparr>)"
  by (simp add: timeout_enter_def signal_alarm_def signal_signal_def Let_def)

text \<open>
  The whole guard, for a duration the assertion and the C conversion accept. The alarm
  fires inside the block exactly when a positive duration does not exceed the time the
  block needs.
\<close>

lemma timeout_eq:
  assumes "0 \<le> time" "time \<le> 2147483647"
  shows "timeout time b s =
     (if time = 0 \<or> duration b < nat time
      then Some (outcome b,
                 \<lparr>sigalrm = SIG_IGN,
                  alarm_left = (if time = 0 then None else Some (nat time - duration b))\<rparr>)
      else Some (on_raise b TimeoutError, \<lparr>sigalrm = SIG_IGN, alarm_left = None\<rparr>))"
  using assms
  by (simp add: timeout_def timeout_enter_ok run_block_def timeout_handler_def
      timeout_exit_def signal_signal_def split: sum.splits exn.splits)

subsection \<open>The precondition\<close>

text \<open>
  C8. For every negative duration, entering the guard fails with the assertion failure
  and the signal state is untouched: no handler installed, no alarm set. For every
  duration \<open>\<ge> 0\<close> the assertion passes: entering does not fail with an assertion
  failure and the handler is installed; within the range of a C \<open>int\<close> entering
  succeeds.
\<close>

theorem timeout_precondition:
  "(time < 0 \<longrightarrow>
      timeout_enter time s =
        (Inl (AssertionError ''Time specified in timeout must be nonnegative.''), s) \<and>
      timeout time b s =
        Some (Inl (AssertionError ''Time specified in timeout must be nonnegative.''), s)) \<and>
   (0 \<le> time \<longrightarrow>
      (\<forall>m. fst (timeout_enter time s) \<noteq> Inl (AssertionError m)) \<and>
      sigalrm (snd (timeout_enter time s)) = timeout_handler) \<and>
   (0 \<le> time \<and> time \<le> 2147483647 \<longrightarrow> fst (timeout_enter time s) = Inr ())"
  by (auto simp add: timeout_def timeout_enter_def signal_alarm_def signal_signal_def Let_def)

theorem timeout_precondition_witness:
  "timeout (- 1) (sleep 5) fresh_signals =
     Some (Inl (AssertionError ''Time specified in timeout must be nonnegative.''), fresh_signals) \<and>
   sigalrm (snd (timeout_enter 0 fresh_signals)) = timeout_handler \<and>
   fst (timeout_enter 0 fresh_signals) = Inr ()"
  using timeout_precondition [of "- 1" fresh_signals "sleep 5"]
        timeout_precondition [of 0 fresh_signals "sleep 5"]
  by simp

subsection \<open>Duration 0\<close>

text \<open>
  C2. The claim asks for \<open>TimeoutError\<close> when a block is still running under a guard of
  duration 0, as the docstring of timeout does (a timeout is raised if the block does not
  return in time \<open>time\<close>) for a duration its assertion admits. The code does not do this:
  it hands 0 to \<open>signal.alarm\<close>, which schedules no alarm, so the guard around
  \<open>time.sleep(5)\<close> is left normally after the full five seconds.
\<close>

theorem timeout_zero_never_fires:
  "alarm_left (snd (timeout_enter 0 fresh_signals)) = None \<and>
   timeout 0 (sleep 5) fresh_signals = Some (Inr (), \<lparr>sigalrm = SIG_IGN, alarm_left = None\<rparr>) \<and>
   map_option fst (timeout 0 (sleep 5) fresh_signals) \<noteq> Some (Inl TimeoutError)"
  by (simp add: timeout_eq timeout_enter_ok sleep_def)

subsection \<open>The timeout failure\<close>

text \<open>
  C7. When the alarm fires inside the block (a positive duration not above the time the
  block needs), \<open>TimeoutError\<close> is raised in the block and the guard hands on whatever
  the block lets out: \<open>TimeoutError\<close> itself unless the block catches it. The
  \<open>except\<close> clause of the guard raises it again, it is never swallowed. It is not an
  instance of the failure class that retry recovers from.
\<close>

theorem timeout_raises_TimeoutError:
  fixes b :: "'v block"
  assumes "0 < time" "time \<le> 2147483647" "nat time \<le> duration b"
  shows "map_option fst (timeout time b s) = Some (on_raise b TimeoutError) \<and>
         (on_raise b TimeoutError = Inl TimeoutError \<longrightarrow>
            map_option fst (timeout time b s) = Some (Inl TimeoutError)) \<and>
         fst (timeout_exit (Inl TimeoutError :: exn + 'v) s2) = Inl TimeoutError \<and>
         \<not> failureException TestCase TimeoutError"
  using assms
  by (simp add: timeout_eq timeout_exit_fst TestCase_def)

theorem timeout_raises_TimeoutError_witness:
  "map_option fst (timeout 1 (sleep 5) fresh_signals) = Some (Inl TimeoutError) \<and>
   \<not> failureException TestCase TimeoutError"
proof -
  have a: "(0::int) < 1" by simp
  have b: "(1::int) \<le> 2147483647" by simp
  have c: "nat 1 \<le> duration (sleep 5)" by (simp add: sleep_def)
  from timeout_raises_TimeoutError [OF a b c, of fresh_signals fresh_signals] show ?thesis
    by (simp add: sleep_def)
qed

subsection \<open>Failures of the block\<close>

text \<open>
  C6. A block that raises a failure \<open>e\<close> before the alarm fires (no alarm is scheduled,
  or the block needs less time than the duration): the guard raises \<open>e\<close>, unchanged.
\<close>

theorem timeout_block_failure_unchanged:
  assumes "0 \<le> time" "time \<le> 2147483647" "time = 0 \<or> duration b < nat time"
    and "outcome b = Inl e"
  shows "map_option fst (timeout time b s) = Some (Inl e)"
  using assms by (auto simp add: timeout_eq)

theorem timeout_block_failure_unchanged_witness:
  "map_option fst
     (timeout 30 \<lparr>duration = 2, outcome = (Inl (OtherError ''boom'') :: exn + unit), on_raise = Inl\<rparr>
        fresh_signals) = Some (Inl (OtherError ''boom''))"
proof -
  let ?b = "\<lparr>duration = 2, outcome = (Inl (OtherError ''boom'') :: exn + unit), on_raise = Inl\<rparr>"
  have a: "(0::int) \<le> 30" by simp
  have b: "(30::int) \<le> 2147483647" by simp
  have c: "(30::int) = 0 \<or> duration ?b < nat 30" by simp
  have d: "outcome ?b = Inl (OtherError ''boom'')" by simp
  from timeout_block_failure_unchanged [OF a b c d] show ?thesis .
qed

subsection \<open>Teardown\<close>

text \<open>
  C3, as the specification states it, fails: after the guard with duration 30 around
  \<open>time.sleep(1)\<close> has been left, the alarm is still scheduled, 29 seconds ahead.
\<close>

theorem timeout_alarm_left_counterexample:
  "timeout 30 (sleep 1) fresh_signals = Some (Inr (), \<lparr>sigalrm = SIG_IGN, alarm_left = Some 29\<rparr>) \<and>
   alarm_left (snd (the (timeout 30 (sleep 1) fresh_signals))) \<noteq> None"
  by (simp add: timeout_eq sleep_def)

text \<open>
  C3, amended. For a duration the assertion and the C conversion accept, and however the
  block ends (normally, with a failure of its own, or interrupted by the alarm), the guard
  is left through its \<open>finally\<close> clause, which sets the disposition of \<open>SIGALRM\<close> to
  \<open>SIG_IGN\<close>. The clause does not cancel the alarm: when the block ends before a
  positive countdown has fired, the rest of the countdown is still scheduled after the
  guard (none is scheduled only after duration 0 or after the alarm has fired). Code
  \<open>b2\<close> run directly in the state the guard leaves, where the signal is ignored, ends
  with its own outcome. A second guard with the same duration started in that state
  behaves as it does on first use, since entering overwrites both the disposition and the
  alarm.
\<close>

theorem timeout_teardown:
  assumes "0 \<le> time" "time \<le> 2147483647"
  shows "\<exists>res s'. timeout time b s = Some (res, s') \<and>
           res = (if time = 0 \<or> duration b < nat time then outcome b
                  else on_raise b TimeoutError) \<and>
           sigalrm s' = SIG_IGN \<and>
           alarm_left s' = (if time = 0 \<or> nat time \<le> duration b then None
                            else Some (nat time - duration b)) \<and>
           map_option fst (run_block b2 s') = Some (outcome b2) \<and>
           timeout time b2 s' = timeout time b2 s"
  using assms
  by (auto simp add: timeout_eq run_block_def)

text \<open>
  The guard of 30 seconds around \<open>time.sleep(1)\<close>: left normally with \<open>SIG_IGN\<close> and
  29 seconds of countdown; \<open>time.sleep(60)\<close> after it is not interrupted; a second guard
  of 30 seconds behaves as on first use.
\<close>

theorem timeout_teardown_witness:
  "\<exists>res s'. timeout 30 (sleep 1) fresh_signals = Some (res, s') \<and>
           res = Inr () \<and>
           sigalrm s' = SIG_IGN \<and>
           alarm_left s' = Some 29 \<and>
           map_option fst (run_block (sleep 60) s') = Some (Inr ()) \<and>
           timeout 30 (sleep 60) s' = timeout 30 (sleep 60) fresh_signals"
proof -
  have a: "(0::int) \<le> 30" by simp
  have b: "(30::int) \<le> 2147483647" by simp
  from timeout_teardown [OF a b, of "sleep 1" fresh_signals "sleep 60"] show ?thesis
    by (simp add: sleep_def)
qed

subsection \<open>The handler after the guard\<close>

text \<open>
  C4, as the specification states it, fails: a process that enters the guard with the
  default disposition of \<open>SIGALRM\<close> leaves it with \<open>SIG_IGN\<close>.
\<close>

theorem timeout_handler_not_restored_counterexample:
  "sigalrm fresh_signals = SIG_DFL \<and>
   sigalrm (snd (the (timeout 30 (sleep 1) fresh_signals))) = SIG_IGN \<and>
   sigalrm (snd (the (timeout 30 (sleep 1) fresh_signals))) \<noteq> sigalrm fresh_signals"
  by (simp add: timeout_eq sleep_def fresh_signals_def)

text \<open>
  C4, amended. When the block ends before the alarm fires, the guard hands on the
  outcome of the block and leaves the disposition of \<open>SIGALRM\<close> at \<open>SIG_IGN\<close>,
  whatever it was before: the disposition is the one before entry only if that was
  \<open>SIG_IGN\<close>. What is left of a positive countdown stays scheduled.
\<close>

theorem timeout_exit_sets_SIG_IGN:
  assumes "0 \<le> time" "time \<le> 2147483647" "time = 0 \<or> duration b < nat time"
  shows "\<exists>s'. timeout time b s = Some (outcome b, s') \<and>
           sigalrm s' = SIG_IGN \<and>
           (sigalrm s' = sigalrm s \<longleftrightarrow> sigalrm s = SIG_IGN) \<and>
           alarm_left s' = (if time = 0 then None else Some (nat time - duration b))"
  using assms
  by (auto simp add: timeout_eq)

theorem timeout_exit_sets_SIG_IGN_witness:
  "\<exists>s'. timeout 30 (sleep 1) fresh_signals = Some (outcome (sleep 1), s') \<and>
           sigalrm s' = SIG_IGN \<and>
           (sigalrm s' = sigalrm fresh_signals \<longleftrightarrow> sigalrm fresh_signals = SIG_IGN) \<and>
           alarm_left s' = Some 29"
proof -
  have a: "(0::int) \<le> 30" by simp
  have b: "(30::int) \<le> 2147483647" by simp
  have c: "(30::int) = 0 \<or> duration (sleep 1) < nat 30" by (simp add: sleep_def)
  from timeout_exit_sets_SIG_IGN [OF a b c, of fresh_signals] show ?thesis
    by (simp add: sleep_def)
qed

end
